theory Spec2Isabelle
  imports Complex_Main "HOL-Library.Sublist"
begin

section \<open>Strings\<close>

text \<open>
  A Python \<open>str\<close> is modelled as a HOL \<open>string\<close>: each \<open>char\<close> stands for the code
  point of the same number, so the model covers the strings whose code points are below 256
  (ASCII and Latin-1). On that range \<open>str.isspace\<close>, \<open>str.lower\<close> and the
  regular-expression class \<open>\d\<close> are as written below.
\<close>

definition in_range :: "char \<Rightarrow> char \<times> char \<Rightarrow> bool" where
  "in_range c r = ((of_char (fst r) :: nat) \<le> of_char c \<and> (of_char c :: nat) \<le> of_char (snd r))"

definition is_digit :: "char \<Rightarrow> bool" where
  "is_digit c = in_range c (CHR ''0'', CHR ''9'')"

definition py_isspace :: "char \<Rightarrow> bool" where
  "py_isspace c =
     (in_range c (CHR 0x09, CHR 0x0D) \<or> in_range c (CHR 0x1C, CHR 0x20)
      \<or> c = CHR 0x85 \<or> c = CHR 0xA0)"

definition py_strip :: "string \<Rightarrow> string" where
  "py_strip s = rev (dropWhile py_isspace (rev (dropWhile py_isspace s)))"

definition py_lower_char :: "char \<Rightarrow> char" where
  "py_lower_char c =
     (if in_range c (CHR ''A'', CHR ''Z'')
         \<or> (in_range c (CHR 0xC0, CHR 0xDE) \<and> c \<noteq> CHR 0xD7)
      then char_of ((of_char c :: nat) + 32) else c)"

definition py_lower :: "string \<Rightarrow> string" where
  "py_lower s = map py_lower_char s"

text \<open>\<open>needle in hay\<close> on two strings: \<open>needle\<close> occurs in \<open>hay\<close> as a contiguous run.\<close>

fun py_in_str :: "string \<Rightarrow> string \<Rightarrow> bool" where
  "py_in_str needle [] = (needle = [])"
| "py_in_str needle (c # hay) = (prefix needle (c # hay) \<or> py_in_str needle hay)"

section \<open>The regular expressions of the module\<close>

text \<open>
  The two patterns of \<open>rpf.py\<close> are sequences of single-character sets, greedy
  repetitions of a single-character set, anchors and group marks. \<open>bt\<close> is the
  backtracking matcher of Python's \<open>re\<close> on such sequences: a greedy repetition takes
  the longest run first and gives characters back one at a time until the rest of the
  pattern matches. A match attempt works on the rest of the subject string, with the
  absolute position of that rest; marks are absolute positions.
\<close>

datatype cset = Lit char | Dot | Digit | Cls "char list" "(char \<times> char) list"

fun cmem :: "cset \<Rightarrow> char \<Rightarrow> bool" where
  "cmem (Lit a) c = (c = a)"
| "cmem Dot c = (c \<noteq> CHR 0x0A)"
| "cmem Digit c = is_digit c"
| "cmem (Cls singles ranges) c = (c \<in> set singles \<or> list_ex (in_range c) ranges)"

datatype item = Bol | Eol | One cset | Rep nat "nat option" cset | Mark nat

type_synonym marks = "nat \<rightharpoonup> nat"

definition run :: "cset \<Rightarrow> string \<Rightarrow> nat" where
  "run cs s = length (takeWhile (cmem cs) s)"

fun first_some :: "(nat \<Rightarrow> 'a option) \<Rightarrow> nat list \<Rightarrow> 'a option" where
  "first_some f [] = None"
| "first_some f (k # ks) = (case f k of Some r \<Rightarrow> Some r | None \<Rightarrow> first_some f ks)"

definition rep_counts :: "nat \<Rightarrow> nat option \<Rightarrow> nat \<Rightarrow> nat list" where
  "rep_counts lo hi n = rev [lo ..< Suc (case hi of None \<Rightarrow> n | Some h \<Rightarrow> min n h)]"

fun bt :: "item list \<Rightarrow> string \<Rightarrow> nat \<Rightarrow> marks \<Rightarrow> (nat \<times> marks) option" where
  "bt [] rest pos m = Some (pos, m)"
| "bt (Bol # p) rest pos m = (if pos = 0 then bt p rest pos m else None)"
| "bt (Eol # p) rest pos m =
     (if rest = [] \<or> rest = [CHR 0x0A] then bt p rest pos m else None)"
| "bt (One cs # p) rest pos m =
     (case rest of
        [] \<Rightarrow> None
      | c # rest' \<Rightarrow> if cmem cs c then bt p rest' (Suc pos) m else None)"
| "bt (Rep lo hi cs # p) rest pos m =
     first_some (\<lambda>k. bt p (drop k rest) (pos + k) m) (rep_counts lo hi (run cs rest))"
| "bt (Mark i # p) rest pos m = bt p rest pos (m(i \<mapsto> pos))"

text \<open>\<open>m.group(g)\<close> for \<open>g \<ge> 1\<close>: the slice between the marks \<open>2g - 2\<close> and \<open>2g - 1\<close>;
  a group that took no part in the match is the empty string in a template.\<close>

definition group :: "string \<Rightarrow> marks \<Rightarrow> nat \<Rightarrow> string" where
  "group s m g =
     (case (m (2 * g - 2), m (2 * g - 1)) of
        (Some b, Some e) \<Rightarrow> take (e - b) (drop b s)
      | _ \<Rightarrow> [])"

datatype tpart = TLit string | TGroup nat

fun expand :: "tpart list \<Rightarrow> string \<Rightarrow> marks \<Rightarrow> string" where
  "expand [] s m = []"
| "expand (TLit l # t) s m = l @ expand t s m"
| "expand (TGroup g # t) s m = group s m g @ expand t s m"

text \<open>
  \<open>re.search\<close>: the match attempts start at positions 0, 1, ..., \<open>len(s)\<close> in turn; the
  result is the matched slice \<open>group(0)\<close> of the first attempt that succeeds, with its
  marks, or \<open>None\<close>.
\<close>

definition re_search :: "item list \<Rightarrow> string \<Rightarrow> (string \<times> marks) option" where
  "re_search p s =
     first_some
       (\<lambda>k. case bt p (drop k s) k Map.empty of
               None \<Rightarrow> None
             | Some (e, m) \<Rightarrow> Some (take (e - k) (drop k s), m))
       [0 ..< Suc (length s)]"

text \<open>
  \<open>re.sub\<close>: scan from the left; where the pattern matches, emit the expanded template
  and go on behind the match (an empty match also copies the next character); elsewhere
  copy one character.
\<close>

function sub_from :: "item list \<Rightarrow> tpart list \<Rightarrow> string \<Rightarrow> nat \<Rightarrow> string" where
  "sub_from p t s pos =
     (if length s < pos then []
      else
        (case bt p (drop pos s) pos Map.empty of
           Some (e, m) \<Rightarrow>
             expand t s m @
               (if pos < e then sub_from p t s e
                else if pos < length s then s ! pos # sub_from p t s (Suc pos)
                else [])
         | None \<Rightarrow>
             (if pos < length s then s ! pos # sub_from p t s (Suc pos) else [])))"
  by pat_completeness auto
termination
  by (relation "measure (\<lambda>(p, t, s, pos). Suc (length s) - pos)") auto

declare sub_from.simps [simp del]

definition re_sub :: "item list \<Rightarrow> tpart list \<Rightarrow> string \<Rightarrow> string" where
  "re_sub p t s = sub_from p t s 0"

text \<open>The character class \<open>[-_;()/:a-zA-Z0-9]\<close>.\<close>

definition seg_class :: cset where
  "seg_class =
     Cls ''-_;()/:'' [(CHR ''a'', CHR ''z''), (CHR ''A'', CHR ''Z''), (CHR ''0'', CHR ''9'')]"

text \<open>\<open>^10.\d{4,9}/([-_;()/:a-zA-Z0-9]+)\.([-_;()/:a-zA-Z0-9]+)$\<close>: the first dot is
  the unescaped wildcard, the second one is escaped.\<close>

definition doi_pattern :: "item list" where
  "doi_pattern =
     [Bol, One (Lit CHR ''1''), One (Lit CHR ''0''), One Dot, Rep 4 (Some 9) Digit,
      One (Lit CHR ''/''),
      Mark 0, Rep 1 None seg_class, Mark 1,
      One (Lit CHR ''.''),
      Mark 2, Rep 1 None seg_class, Mark 3,
      Eol]"

text \<open>The template \<open>\1\2\<close>.\<close>

definition doi_template :: "tpart list" where
  "doi_template = [TGroup 1, TGroup 2]"

text \<open>\<open>\d+/\d+/e\d+\<close>\<close>

definition lsa_pattern :: "item list" where
  "lsa_pattern =
     [Rep 1 None Digit, One (Lit CHR ''/''), Rep 1 None Digit, One (Lit CHR ''/''),
      One (Lit CHR ''e''), Rep 1 None Digit]"

definition doi_tail :: "item list" where
  "doi_tail =
     [Mark 0, Rep 1 None seg_class, Mark 1, One (Lit CHR ''.''),
      Mark 2, Rep 1 None seg_class, Mark 3, Eol]"

section \<open>Errors, JSON values and the outside world\<close>

text \<open>
  The exceptions that occur. \<open>JSONDecodeError\<close> is an instance of \<open>json.JSONDecodeError\<close>,
  the class the module imports and catches, or of a subclass of it; \<open>OtherError\<close> is an
  exception of any other class, by its name.
\<close>

datatype pyerror =
    TypeError
  | KeyError string
  | AttributeError
  | NotImplementedError
  | JSONDecodeError
  | OtherError string

text \<open>
  The value \<open>proxy_response.json()\<close> returns. \<open>JObj\<close> lists the items of the decoded
  \<open>dict\<close> (distinct keys); \<open>JFloat\<close> carries the exact value of a finite float.
\<close>

datatype json =
    JNull
  | JBool bool
  | JInt int
  | JFloat real
  | JStr string
  | JArr "json list"
  | JObj "(string \<times> json) list"

text \<open>\<open>v[key]\<close> with a \<open>str\<close> key.\<close>

fun py_getitem :: "json \<Rightarrow> string \<Rightarrow> pyerror + json" where
  "py_getitem (JObj kvs) key =
     (case map_of kvs key of None \<Rightarrow> Inl (KeyError key) | Some v \<Rightarrow> Inr v)"
| "py_getitem v key = Inl TypeError"

text \<open>\<open>v != 200\<close>: numbers compare by value, and \<open>True\<close> and \<open>False\<close> are 1 and 0.\<close>

fun py_ne_200 :: "json \<Rightarrow> bool" where
  "py_ne_200 (JInt n) = (n \<noteq> 200)"
| "py_ne_200 (JFloat x) = (x \<noteq> 200)"
| "py_ne_200 v = True"

text \<open>\<open>v.get(key, dflt)\<close>: only a \<open>dict\<close> has the method.\<close>

fun py_get :: "json \<Rightarrow> string \<Rightarrow> json \<Rightarrow> pyerror + json" where
  "py_get (JObj kvs) key dflt =
     (case map_of kvs key of None \<Rightarrow> Inr dflt | Some v \<Rightarrow> Inr v)"
| "py_get v key dflt = Inl AttributeError"

text \<open>\<open>needle in v\<close> for a \<open>str\<close> needle: a substring test on a string, membership
  in a list, key membership in a dict, \<open>TypeError\<close> on anything else.\<close>

fun py_contains :: "string \<Rightarrow> json \<Rightarrow> pyerror + bool" where
  "py_contains needle (JStr s) = Inr (py_in_str needle s)"
| "py_contains needle (JArr xs) = Inr (JStr needle \<in> set xs)"
| "py_contains needle (JObj kvs) = Inr (needle \<in> fst ` set kvs)"
| "py_contains needle v = Inl TypeError"

text \<open>
  The proxy's reply: its HTTP status, and what the call \<open>.json()\<close> does on it. The call
  returns the decoded body or raises. Which exception it raises on a body that is no JSON
  is the library's choice: \<open>requests\<close> raises its own \<open>JSONDecodeError\<close>, which is a
  subclass of \<open>json.JSONDecodeError\<close> only when \<open>requests\<close> decodes with the standard
  \<open>json\<close> module, and is another class when it decodes with \<open>simplejson\<close>.
\<close>

record proxy_response =
  status_code :: int
  json_result :: "pyerror + json"

text \<open>
  What the module calls outside itself: \<open>utils.resolve\<close> (not part of this file),
  \<open>random.randint(5, 20)\<close> and \<open>requests.post\<close>. Each may raise.
\<close>

record world =
  resolve :: "string \<Rightarrow> pyerror + string"
  randint_5_20 :: int
  post :: "string \<Rightarrow> json \<Rightarrow> pyerror + proxy_response"

datatype rpf_class = RPFLinkAbstract | RPFLinkEjErEmmMsb | RPFLinkLSA

text \<open>The calls that leave the module, and the instantiations, in the order they happen.\<close>

datatype event =
    Instantiate rpf_class
  | Resolve string
  | LogDebug
  | Sleep int
  | Post string json
  | LogWarning

type_synonym 'a outcome = "(pyerror + 'a) \<times> event list"

section \<open>The link classes\<close>

record rpf_link =
  cls :: rpf_class
  delay_requests :: bool

text \<open>
  \<open>super.__init__()\<close>, as \<open>__init__\<close> writes it: \<open>super\<close> is the builtin type, not
  an instance made by \<open>super()\<close>, so \<open>super.__init__\<close> is the type's unbound slot
  wrapper, and calling it without a receiver raises \<open>TypeError\<close> (descriptor
  \<open>__init__\<close> of \<open>super\<close> object needs an argument). Both places that instantiate a
  class pass no argument, so \<open>*args\<close> and \<open>**kwargs\<close> are empty.
\<close>

definition super_init_unbound :: "pyerror + unit" where
  "super_init_unbound = Inl TypeError"

definition RPFLinkAbstract_init :: "rpf_class \<Rightarrow> bool \<Rightarrow> pyerror + rpf_link" where
  "RPFLinkAbstract_init c delay_requests_arg =
     (case super_init_unbound of
        Inl e \<Rightarrow> Inl e
      | Inr u \<Rightarrow> Inr \<lparr>cls = c, delay_requests = True\<rparr>)"

definition proxy_url :: string where
  "proxy_url = ''http://proxy:8191/v1''"

definition proxy_request_data :: "string \<Rightarrow> json" where
  "proxy_request_data link =
     JObj [(''cmd'', JStr ''request.get''), (''url'', JStr link), (''maxTimeout'', JInt 60000)]"

text \<open>The part of \<open>_test\<close> after the body has been decoded (lines 73 to 80).\<close>

definition inspect_solution :: "json \<Rightarrow> string \<Rightarrow> string \<Rightarrow> string outcome" where
  "inspect_solution proxy_response_data link invalid =
     (case py_getitem proxy_response_data ''solution'' of
        Inl e \<Rightarrow> (Inl e, [])
      | Inr solution \<Rightarrow>
     (case py_getitem solution ''status'' of
        Inl e \<Rightarrow> (Inl e, [])
      | Inr response_status \<Rightarrow>
     (case py_getitem solution ''headers'' of
        Inl e \<Rightarrow> (Inl e, [])
      | Inr response_headers \<Rightarrow>
     if py_ne_200 response_status then (Inr invalid, [LogWarning])
     else
     (case py_get response_headers ''content-type'' (JStr []) of
        Inl e \<Rightarrow> (Inl e, [])
      | Inr response_content_type \<Rightarrow>
     (case py_contains ''application/pdf'' response_content_type of
        Inl e \<Rightarrow> (Inl e, [])
      | Inr found \<Rightarrow> (Inr (if found then link else invalid), []))))))"

text \<open>\<open>_test(self, link, invalid)\<close>; \<open>link\<close> is \<open>None\<close> or a string. The \<open>try\<close> around
  \<open>.json()\<close> has one handler, \<open>except JSONDecodeError\<close>: any other exception of the call
  leaves \<open>_test\<close>.\<close>

definition RPFLinkAbstract_test ::
    "rpf_link \<Rightarrow> world \<Rightarrow> string option \<Rightarrow> string \<Rightarrow> string outcome" where
  "RPFLinkAbstract_test self w link_opt invalid =
     (case link_opt of
        None \<Rightarrow> (Inr invalid, [])
      | Some link \<Rightarrow>
        if link = [] then (Inr invalid, [])
        else
          let delay = (if delay_requests self then [LogDebug, Sleep (randint_5_20 w)] else []);
              sent = delay @ [Post proxy_url (proxy_request_data link)]
          in
          (case post w proxy_url (proxy_request_data link) of
             Inl e \<Rightarrow> (Inl e, sent)
           | Inr proxy_response \<Rightarrow>
               if status_code proxy_response \<noteq> 200 then (Inr invalid, sent @ [LogWarning])
               else
                 (case json_result proxy_response of
                    Inl e \<Rightarrow>
                      if e = JSONDecodeError then (Inr invalid, sent @ [LogWarning])
                      else (Inl e, sent)
                  | Inr proxy_response_data \<Rightarrow>
                      (case inspect_solution proxy_response_data link invalid of
                         (r, logged) \<Rightarrow> (r, sent @ logged)))))"

definition RPFLinkEjErEmmMsb_generate_link :: "string \<Rightarrow> string" where
  "RPFLinkEjErEmmMsb_generate_link doi =
     (let suffix_without_dot = re_sub doi_pattern doi_template doi
      in ''https://www.embopress.org/action/downloadSupplement?doi='' @ doi @ ''&file=''
           @ suffix_without_dot @ ''.reviewer_comments.pdf'')"

text \<open>\<open>re.search(...).group(0)\<close>: \<open>None\<close> has no attribute \<open>group\<close>.\<close>

definition RPFLinkLSA_generate_link :: "world \<Rightarrow> string \<Rightarrow> string outcome" where
  "RPFLinkLSA_generate_link w doi =
     (case resolve w doi of
        Inl e \<Rightarrow> (Inl e, [Resolve doi])
      | Inr resolved \<Rightarrow>
          (case re_search lsa_pattern resolved of
             None \<Rightarrow> (Inl AttributeError, [Resolve doi])
           | Some (vol_issue_enumber, m) \<Rightarrow>
               (Inr (''https://www.life-science-alliance.org/content/lsa/'' @ vol_issue_enumber
                      @ ''.reviewer-comments.pdf''),
                [Resolve doi])))"

text \<open>\<open>self._generate_link(doi)\<close>, by the class of \<open>self\<close>.\<close>

definition generate_link :: "rpf_link \<Rightarrow> world \<Rightarrow> string \<Rightarrow> string outcome" where
  "generate_link self w doi =
     (case cls self of
        RPFLinkAbstract \<Rightarrow> (Inl NotImplementedError, [])
      | RPFLinkEjErEmmMsb \<Rightarrow> (Inr (RPFLinkEjErEmmMsb_generate_link doi), [])
      | RPFLinkLSA \<Rightarrow> RPFLinkLSA_generate_link w doi)"

definition RPFLinkAbstract_call :: "rpf_link \<Rightarrow> world \<Rightarrow> string \<Rightarrow> string outcome" where
  "RPFLinkAbstract_call self w doi =
     (case generate_link self w doi of
        (Inl e, t) \<Rightarrow> (Inl e, t)
      | (Inr link, t) \<Rightarrow>
          (case RPFLinkAbstract_test self w (Some link) [] of (r, t') \<Rightarrow> (r, t @ t')))"

section \<open>The entry point\<close>

text \<open>\<open>resolver = C()\<close> followed by \<open>return resolver(doi)\<close>.\<close>

definition instantiate_and_call :: "rpf_class \<Rightarrow> world \<Rightarrow> string \<Rightarrow> string outcome" where
  "instantiate_and_call c w doi =
     (case RPFLinkAbstract_init c True of
        Inl e \<Rightarrow> (Inl e, [Instantiate c])
      | Inr resolver \<Rightarrow>
          (case RPFLinkAbstract_call resolver w doi of (r, t) \<Rightarrow> (r, Instantiate c # t)))"

definition generate_rpf_link :: "world \<Rightarrow> string \<Rightarrow> string \<Rightarrow> string outcome" where
  "generate_rpf_link w journal doi =
     (let journal = py_lower (py_strip journal) in
      if journal \<in> set [''the embo journal'', ''embo reports'', ''embo molecular medicine'',
                         ''molecular systems biology'']
      then instantiate_and_call RPFLinkEjErEmmMsb w doi
      else if journal = ''life science alliance''
      then instantiate_and_call RPFLinkLSA w doi
      else (Inr [], []))"

section \<open>The words of the specification\<close>

text \<open>A character of a DOI segment: one of \<open>-_;()/:\<close>, a letter or a digit.\<close>

definition is_seg_char :: "char \<Rightarrow> bool" where
  "is_seg_char c =
     (c \<in> set ''-_;()/:'' \<or> in_range c (CHR ''a'', CHR ''z'')
      \<or> in_range c (CHR ''A'', CHR ''Z'') \<or> in_range c (CHR ''0'', CHR ''9''))"

text \<open>A non-empty run of decimal digits.\<close>

definition digits :: "string \<Rightarrow> bool" where
  "digits s = (s \<noteq> [] \<and> list_all is_digit s)"

text \<open>\<open><digits>/<digits>/e<digits>\<close>: volume, issue and article number.\<close>

definition vol_issue_enum :: "string \<Rightarrow> string \<Rightarrow> string \<Rightarrow> string" where
  "vol_issue_enum v i n = v @ ''/'' @ i @ ''/e'' @ n"

text \<open>A substring of that form starts at position \<open>k\<close> of \<open>url\<close>.\<close>

definition occurs_at :: "nat \<Rightarrow> string \<Rightarrow> bool" where
  "occurs_at k url =
     (\<exists>v i n rst. drop k url = vol_issue_enum v i n @ rst \<and> digits v \<and> digits i \<and> digits n)"

text \<open>\<open>url\<close> contains a substring of that form.\<close>

definition contains_vie :: "string \<Rightarrow> bool" where
  "contains_vie url =
     (\<exists>pre v i n rst. url = pre @ vol_issue_enum v i n @ rst \<and> digits v \<and> digits i \<and> digits n)"

text \<open>The first occurrence in \<open>url\<close>: none starts further left, and the article number
  takes every digit that follows.\<close>

definition first_occurrence :: "string \<Rightarrow> string \<Rightarrow> string \<Rightarrow> string \<Rightarrow> string \<Rightarrow> string \<Rightarrow> bool" where
  "first_occurrence url pre v i n rst =
     (url = pre @ vol_issue_enum v i n @ rst \<and> digits v \<and> digits i \<and> digits n
      \<and> (rst = [] \<or> \<not> is_digit (hd rst))
      \<and> (\<forall>k<length pre. \<not> occurs_at k url))"

text \<open>The five journal names the entry point recognises, in normal form.\<close>

definition recognized_journals :: "string list" where
  "recognized_journals =
     [''the embo journal'', ''embo reports'', ''embo molecular medicine'',
      ''molecular systems biology'', ''life science alliance'']"

text \<open>The class the entry point instantiates, read off the first event of a call.\<close>

definition selected_class :: "world \<Rightarrow> string \<Rightarrow> string \<Rightarrow> rpf_class option" where
  "selected_class w journal doi =
     (case snd (generate_rpf_link w journal doi) of
        Instantiate c # t \<Rightarrow> Some c
      | _ \<Rightarrow> None)"

text \<open>A DOI \<open>10.<4-9 digits>/<seg1>.<seg2>\<close>, both dots literal, both segments non-empty.\<close>

definition two_segment_doi :: "string \<Rightarrow> bool" where
  "two_segment_doi doi =
     (\<exists>ds seg1 seg2. doi = ''10.'' @ ds @ ''/'' @ seg1 @ ''.'' @ seg2
        \<and> 4 \<le> length ds \<and> length ds \<le> 9 \<and> list_all is_digit ds
        \<and> seg1 \<noteq> [] \<and> seg2 \<noteq> [] \<and> list_all is_seg_char seg1 \<and> list_all is_seg_char seg2)"

text \<open>
  The three conditions on a proxy reply, as the specification words them: the proxy's own
  status is 200; the decoded body's \<open>solution.status\<close> equals 200; the value of
  \<open>solution.headers\<close> under the key \<open>content-type\<close>, the empty string when the key is
  missing, contains \<open>application/pdf\<close>.
\<close>

definition field :: "string \<Rightarrow> json \<Rightarrow> json option" where
  "field k v = (case v of JObj kvs \<Rightarrow> map_of kvs k | _ \<Rightarrow> None)"

definition decoded_body :: "proxy_response \<Rightarrow> json option" where
  "decoded_body r = (case json_result r of Inl e \<Rightarrow> None | Inr body \<Rightarrow> Some body)"

definition solution_status :: "proxy_response \<Rightarrow> json option" where
  "solution_status r =
     Option.bind (Option.bind (decoded_body r) (field ''solution'')) (field ''status'')"

definition solution_headers :: "proxy_response \<Rightarrow> json option" where
  "solution_headers r =
     Option.bind (Option.bind (decoded_body r) (field ''solution'')) (field ''headers'')"

definition content_type :: "proxy_response \<Rightarrow> string option" where
  "content_type r =
     (case solution_headers r of
        Some (JObj hs) \<Rightarrow>
          (case map_of hs ''content-type'' of
             None \<Rightarrow> Some []
           | Some (JStr s) \<Rightarrow> Some s
           | Some other \<Rightarrow> None)
      | _ \<Rightarrow> None)"

definition equals_200 :: "json \<Rightarrow> bool" where
  "equals_200 v = (v = JInt 200 \<or> v = JFloat 200)"

definition proxy_ok :: "proxy_response \<Rightarrow> bool" where
  "proxy_ok r = (status_code r = 200)"

definition target_ok :: "proxy_response \<Rightarrow> bool" where
  "target_ok r = (case solution_status r of Some st \<Rightarrow> equals_200 st | None \<Rightarrow> False)"

definition pdf_type :: "proxy_response \<Rightarrow> bool" where
  "pdf_type r =
     (case content_type r of Some ct \<Rightarrow> sublist ''application/pdf'' ct | None \<Rightarrow> False)"

text \<open>
  A reply that follows the proxy's wire contract: when its status is 200, \<open>.json()\<close>
  either raises \<open>json.JSONDecodeError\<close>, or returns a body that has \<open>solution.status\<close> and
  \<open>solution.headers\<close>, the headers an object and \<open>content-type\<close>, when present, a string.
\<close>

definition conforms :: "proxy_response \<Rightarrow> bool" where
  "conforms r =
     (status_code r \<noteq> 200 \<or> json_result r = Inl JSONDecodeError
      \<or> (solution_status r \<noteq> None \<and> content_type r \<noteq> None))"

section \<open>Concrete inputs\<close>

text \<open>A world in which every DOI resolves to \<open>landing\<close>, \<open>randint\<close> draws 5 and the
  proxy answers every request with \<open>reply\<close>.\<close>

definition proxy_world :: "string \<Rightarrow> proxy_response \<Rightarrow> world" where
  "proxy_world landing reply =
     \<lparr>resolve = (\<lambda>doi. Inr landing), randint_5_20 = 5, post = (\<lambda>url data. Inr reply)\<rparr>"

definition link0 :: string where
  "link0 = ''https://www.embopress.org/action/downloadSupplement?doi=10.15252/embr.201847097&file=embr201847097.reviewer_comments.pdf''"

definition lsa_landing :: string where
  "lsa_landing = ''https://www.life-science-alliance.org/content/2/4/e201900445''"

definition doi_org_landing :: string where
  "doi_org_landing = ''https://doi.org/10.26508/lsa.201900445''"

definition json_reply :: "json \<Rightarrow> proxy_response" where
  "json_reply body = \<lparr>status_code = 200, json_result = Inr body\<rparr>"

definition pdf_reply :: proxy_response where
  "pdf_reply = json_reply (JObj [(''solution'', JObj [(''status'', JInt 200),
       (''headers'', JObj [(''content-type'', JStr ''application/pdf'')])])])"

section \<open>The matcher on the two patterns\<close>

lemma cmem_Digit: "cmem Digit c = is_digit c"
  by simp

lemma cmem_seg_class: "cmem seg_class c = is_seg_char c"
  by (auto simp: seg_class_def is_seg_char_def)

lemma not_digit_slash: "\<not> is_digit CHR ''/''"
  by (simp add: is_digit_def in_range_def)

lemma not_seg_dot: "\<not> is_seg_char CHR ''.''"
  by (simp add: is_seg_char_def in_range_def)

lemma run_append_stop:
  assumes "\<forall>c\<in>set xs. cmem cs c" and "rest = [] \<or> \<not> cmem cs (hd rest)"
  shows "run cs (xs @ rest) = length xs"
proof -
  have "takeWhile (cmem cs) rest = []"
    using assms(2) by (cases rest) auto
  with assms(1) show ?thesis
    by (simp add: run_def)
qed

lemma rep_counts_top:
  assumes "lo \<le> n" and "case hi of None \<Rightarrow> True | Some h \<Rightarrow> n \<le> h"
  shows "rep_counts lo hi n = n # rev [lo ..< n]"
  using assms by (auto simp: rep_counts_def split: option.splits)

lemma bt_Rep_greedy:
  assumes "\<forall>c\<in>set xs. cmem cs c" and "rest = [] \<or> \<not> cmem cs (hd rest)"
    and "lo \<le> length xs" and "case hi of None \<Rightarrow> True | Some h \<Rightarrow> length xs \<le> h"
    and "bt p rest (pos + length xs) m = Some r"
  shows "bt (Rep lo hi cs # p) (xs @ rest) pos m = Some r"
  using assms(5) by (simp add: run_append_stop [OF assms(1,2)] rep_counts_top [OF assms(3,4)])

lemma bt_doi_tail:
  assumes "s1 \<noteq> []" "s2 \<noteq> []" "\<forall>c\<in>set s1. is_seg_char c" "\<forall>c\<in>set s2. is_seg_char c"
  shows "bt doi_tail (s1 @ ''.'' @ s2) b m =
     Some (Suc (b + length s1) + length s2,
       m(0 \<mapsto> b, 1 \<mapsto> b + length s1, 2 \<mapsto> Suc (b + length s1),
         3 \<mapsto> Suc (b + length s1) + length s2))"
proof -
  have len1: "1 \<le> length s1" and len2: "1 \<le> length s2"
    using assms(1,2) by (simp_all add: Suc_le_eq)
  have c1: "\<forall>c\<in>set s1. cmem seg_class c" and c2: "\<forall>c\<in>set s2. cmem seg_class c"
    using assms(3,4) by (simp_all add: cmem_seg_class)
  have last: "bt (Rep 1 None seg_class # [Mark 3, Eol]) (s2 @ []) (Suc (b + length s1)) m' =
      Some (Suc (b + length s1) + length s2, m'(3 \<mapsto> Suc (b + length s1) + length s2))" for m'
    by (rule bt_Rep_greedy [OF c2 _ len2]) simp_all
  have mid: "bt (Rep 1 None seg_class # [Mark 1, One (Lit CHR ''.''), Mark 2,
        Rep 1 None seg_class, Mark 3, Eol]) (s1 @ (''.'' @ s2)) b m' =
      Some (Suc (b + length s1) + length s2,
        m'(1 \<mapsto> b + length s1, 2 \<mapsto> Suc (b + length s1),
           3 \<mapsto> Suc (b + length s1) + length s2))" for m'
    by (rule bt_Rep_greedy [OF c1 _ len1]) (use last in \<open>simp_all add: cmem_seg_class not_seg_dot\<close>)
  show ?thesis
    using mid by (simp add: doi_tail_def)
qed

lemma doi_pattern_split:
  "doi_pattern = [Bol, One (Lit CHR ''1''), One (Lit CHR ''0''), One Dot] @
     Rep 4 (Some 9) Digit # One (Lit CHR ''/'') # doi_tail"
  by (simp add: doi_pattern_def doi_tail_def)

lemma bt_doi_head:
  assumes "4 \<le> length ds" "length ds \<le> 9" "\<forall>c\<in>set ds. is_digit c"
    and "bt doi_tail sfx (4 + length ds) m = Some r"
  shows "bt doi_pattern (''10.'' @ ds @ ''/'' @ sfx) 0 m = Some r"
proof -
  have cd: "\<forall>c\<in>set ds. cmem Digit c"
    using assms(3) by simp
  have "bt (Rep 4 (Some 9) Digit # One (Lit CHR ''/'') # doi_tail) (ds @ (''/'' @ sfx))
      (Suc (Suc (Suc 0))) m = Some r"
    by (rule bt_Rep_greedy [OF cd _ assms(1)])
      (use assms(2,4) in \<open>simp_all add: not_digit_slash numeral_eq_Suc\<close>)
  then show ?thesis
    by (simp add: doi_pattern_split)
qed

lemma sub_from_end:
  assumes "s \<noteq> []"
  shows "sub_from doi_pattern t s (length s) = []"
  using assms by (subst sub_from.simps) (simp add: doi_pattern_def)

lemma re_sub_doi_match:
  assumes "4 \<le> length ds" "length ds \<le> 9" "\<forall>c\<in>set ds. is_digit c"
    and "s1 \<noteq> []" "s2 \<noteq> []" "\<forall>c\<in>set s1. is_seg_char c" "\<forall>c\<in>set s2. is_seg_char c"
  shows "re_sub doi_pattern doi_template (''10.'' @ ds @ ''/'' @ s1 @ ''.'' @ s2) = s1 @ s2"
proof -
  let ?doi = "''10.'' @ ds @ ''/'' @ s1 @ ''.'' @ s2"
  let ?b = "4 + length ds"
  let ?e = "Suc (?b + length s1) + length s2"
  let ?m = "Map.empty(0 \<mapsto> ?b, 1 \<mapsto> ?b + length s1, 2 \<mapsto> Suc (?b + length s1), 3 \<mapsto> ?e)"
  have m: "bt doi_pattern ?doi 0 Map.empty = Some (?e, ?m)"
    by (rule bt_doi_head [OF assms(1-3)]) (rule bt_doi_tail [OF assms(4-7)])
  have len: "length ?doi = ?e"
    by simp
  have pre: "?doi = (''10.'' @ ds @ ''/'') @ s1 @ ''.'' @ s2" and lpre: "length (''10.'' @ ds @ ''/'') = ?b"
    by simp_all
  have g1: "group ?doi ?m 1 = s1"
    unfolding pre by (simp add: group_def del: append_assoc append.simps)
  have pre2: "?doi = (''10.'' @ ds @ ''/'' @ s1 @ ''.'') @ s2"
    and lpre2: "length (''10.'' @ ds @ ''/'' @ s1 @ ''.'') = Suc (?b + length s1)"
    by simp_all
  have g2: "group ?doi ?m 2 = s2"
    unfolding pre2 by (simp add: group_def del: append_assoc append.simps)
  have ex: "expand doi_template ?doi ?m = s1 @ s2"
    by (simp only: doi_template_def expand.simps g1 g2 append_Nil2)
  have "sub_from doi_pattern doi_template ?doi 0 = expand doi_template ?doi ?m @ sub_from doi_pattern doi_template ?doi ?e"
    by (subst sub_from.simps) (simp only: m drop_0 option.case prod.case, simp)
  also have "sub_from doi_pattern doi_template ?doi ?e = []"
    using sub_from_end [of ?doi doi_template] by (simp only: len) simp
  finally show ?thesis
    by (simp only: re_sub_def ex append_Nil2)
qed

lemma first_some_SomeD:
  "first_some f ks = Some r \<Longrightarrow> \<exists>k\<in>set ks. f k = Some r"
  by (induction ks) (auto split: option.splits)

lemma first_some_skip:
  assumes "\<forall>k\<in>set ks. f k = None"
  shows "first_some f (ks @ ks') = first_some f ks'"
  using assms by (induction ks) auto

lemma first_some_None:
  "(\<forall>k\<in>set ks. f k = None) \<Longrightarrow> first_some f ks = None"
  by (induction ks) auto

lemma take_run:
  assumes "k \<le> run cs r"
  shows "list_all (cmem cs) (take k r)" and "length (take k r) = k"
proof -
  have le: "k \<le> length (takeWhile (cmem cs) r)"
    using assms by (simp add: run_def)
  have "take k r = take k (takeWhile (cmem cs) r)"
    by (metis le append_eq_conv_conj append_take_drop_id takeWhile_dropWhile_id take_append min.absorb2 length_take diff_is_0_eq take_0 append_Nil2 min.commute)
  then show "list_all (cmem cs) (take k r)"
    by (metis in_set_takeD list_all_iff set_takeWhileD)
  have "length (takeWhile (cmem cs) r) \<le> length r"
    by (rule length_takeWhile_le)
  with le show "length (take k r) = k" by simp
qed

lemma rep_counts_mem:
  "k \<in> set (rep_counts lo hi n) \<Longrightarrow> lo \<le> k \<and> k \<le> n"
  by (auto simp: rep_counts_def split: option.splits)

lemma bt_Rep_SomeD:
  assumes "bt (Rep lo hi cs # p) r pos m = Some x"
  shows "\<exists>k. lo \<le> k \<and> k \<le> run cs r \<and> bt p (drop k r) (pos + k) m = Some x"
proof -
  from assms have "first_some (\<lambda>k. bt p (drop k r) (pos + k) m)
      (rep_counts lo hi (run cs r)) = Some x"
    by simp
  then obtain k where "k \<in> set (rep_counts lo hi (run cs r))"
      and "bt p (drop k r) (pos + k) m = Some x"
    by (blast dest: first_some_SomeD)
  then show ?thesis
    by (blast dest: rep_counts_mem)
qed

lemma bt_Lit_SomeD:
  assumes "bt (One (Lit a) # p) r pos m = Some x"
  shows "\<exists>r'. r = a # r' \<and> bt p r' (Suc pos) m = Some x"
  using assms by (cases r) (auto split: if_splits)

lemma bt_lsa_sound:
  assumes "bt lsa_pattern r pos m = Some x"
  shows "\<exists>v i n rst. r = vol_issue_enum v i n @ rst \<and> digits v \<and> digits i \<and> digits n"
proof -
  from assms obtain k1 where k1: "1 \<le> k1" "k1 \<le> run Digit r"
    and b1: "bt [One (Lit CHR ''/''), Rep 1 None Digit, One (Lit CHR ''/''),
      One (Lit CHR ''e''), Rep 1 None Digit] (drop k1 r) (pos + k1) m = Some x"
    unfolding lsa_pattern_def by (blast dest: bt_Rep_SomeD)
  from b1 obtain r2 where r2: "drop k1 r = CHR ''/'' # r2"
    and b2: "bt [Rep 1 None Digit, One (Lit CHR ''/''),
      One (Lit CHR ''e''), Rep 1 None Digit] r2 (Suc (pos + k1)) m = Some x"
    by (blast dest: bt_Lit_SomeD)
  from b2 obtain k2 where k2: "1 \<le> k2" "k2 \<le> run Digit r2"
    and b3: "bt [One (Lit CHR ''/''), One (Lit CHR ''e''), Rep 1 None Digit]
      (drop k2 r2) (Suc (pos + k1) + k2) m = Some x"
    by (blast dest: bt_Rep_SomeD)
  from b3 obtain r3 where r3: "drop k2 r2 = CHR ''/'' # r3"
    and b4: "bt [One (Lit CHR ''e''), Rep 1 None Digit] r3 (Suc (Suc (pos + k1) + k2)) m = Some x"
    by (blast dest: bt_Lit_SomeD)
  from b4 obtain r4 where r4: "r3 = CHR ''e'' # r4"
    and b5: "bt [Rep 1 None Digit] r4 (Suc (Suc (Suc (pos + k1) + k2))) m = Some x"
    by (blast dest: bt_Lit_SomeD)
  from b5 obtain k3 where k3: "1 \<le> k3" "k3 \<le> run Digit r4"
    by (blast dest: bt_Rep_SomeD)
  let ?v = "take k1 r" and ?i = "take k2 r2" and ?n = "take k3 r4"
  have dv: "digits ?v"
    using take_run [OF k1(2)] k1(1) by (auto simp: digits_def list_all_iff)
  have di: "digits ?i"
    using take_run [OF k2(2)] k2(1) by (auto simp: digits_def list_all_iff)
  have dn: "digits ?n"
    using take_run [OF k3(2)] k3(1) by (auto simp: digits_def list_all_iff)
  have "r = ?v @ drop k1 r" by simp
  also have "drop k1 r = CHR ''/'' # (?i @ drop k2 r2)" using r2 by simp
  also have "drop k2 r2 = CHR ''/'' # CHR ''e'' # (?n @ drop k3 r4)" using r3 r4 by simp
  finally have "r = vol_issue_enum ?v ?i ?n @ drop k3 r4"
    by (simp add: vol_issue_enum_def)
  with dv di dn show ?thesis by blast
qed


lemma not_digit_e: "\<not> is_digit CHR ''e''"
  by (simp add: is_digit_def in_range_def)

lemma bt_lsa_greedy:
  assumes "digits v" and "digits i" and "digits n" and "rst = [] \<or> \<not> is_digit (hd rst)"
  shows "bt lsa_pattern (vol_issue_enum v i n @ rst) pos m =
     Some (pos + length (vol_issue_enum v i n), m)"
proof -
  have cv: "\<forall>c\<in>set v. cmem Digit c" and lv: "1 \<le> length v"
    using assms(1) by (auto simp: digits_def list_all_iff Suc_le_eq)
  have ci: "\<forall>c\<in>set i. cmem Digit c" and li: "1 \<le> length i"
    using assms(2) by (auto simp: digits_def list_all_iff Suc_le_eq)
  have cn: "\<forall>c\<in>set n. cmem Digit c" and ln: "1 \<le> length n"
    using assms(3) by (auto simp: digits_def list_all_iff Suc_le_eq)
  let ?e = "pos + length (vol_issue_enum v i n)"
  have stop: "rst = [] \<or> \<not> cmem Digit (hd rst)"
    using assms(4) by simp
  have s3: "bt [Rep 1 None Digit] (n @ rst) (Suc (Suc (Suc (pos + length v) + length i))) m
      = Some (?e, m)"
    by (rule bt_Rep_greedy [OF cn stop ln]) (simp_all add: vol_issue_enum_def)
  have s2: "bt [Rep 1 None Digit, One (Lit CHR ''/''), One (Lit CHR ''e''), Rep 1 None Digit]
      (i @ (''/e'' @ n @ rst)) (Suc (pos + length v)) m = Some (?e, m)"
    by (rule bt_Rep_greedy [OF ci _ li]) (use s3 in \<open>simp_all add: not_digit_slash\<close>)
  have s1: "bt lsa_pattern (v @ (''/'' @ i @ ''/e'' @ n @ rst)) pos m = Some (?e, m)"
    unfolding lsa_pattern_def
    by (rule bt_Rep_greedy [OF cv _ lv]) (use s2 in \<open>simp_all add: not_digit_slash\<close>)
  then show ?thesis
    by (simp add: vol_issue_enum_def)
qed

lemma occurs_at_bound:
  assumes "occurs_at k url"
  shows "k < length url"
proof (rule ccontr)
  assume "\<not> k < length url"
  then have "drop k url = []" by simp
  with assms show False
    by (auto simp: occurs_at_def vol_issue_enum_def)
qed

lemma bt_lsa_occurs:
  assumes "bt lsa_pattern (drop k url) pos m = Some x"
  shows "occurs_at k url"
  using bt_lsa_sound [OF assms] by (auto simp: occurs_at_def)

lemma contains_vie_occurs: "contains_vie url = (\<exists>k. occurs_at k url)"
proof
  assume "contains_vie url"
  then obtain pre v i n rst where "url = pre @ vol_issue_enum v i n @ rst"
      "digits v" "digits i" "digits n"
    by (auto simp: contains_vie_def)
  then have "occurs_at (length pre) url"
    by (auto simp: occurs_at_def)
  then show "\<exists>k. occurs_at k url" ..
next
  assume "\<exists>k. occurs_at k url"
  then obtain k v i n rst where "drop k url = vol_issue_enum v i n @ rst"
      "digits v" "digits i" "digits n"
    by (auto simp: occurs_at_def)
  moreover have "url = take k url @ drop k url" by simp
  ultimately show "contains_vie url"
    unfolding contains_vie_def by metis
qed

lemma re_search_lsa_None:
  assumes "\<not> contains_vie url"
  shows "re_search lsa_pattern url = None"
proof -
  have "bt lsa_pattern (drop k url) k Map.empty = None" for k
    using assms bt_lsa_occurs [of k url k Map.empty]
    by (cases "bt lsa_pattern (drop k url) k Map.empty") (auto simp: contains_vie_occurs)
  then show ?thesis
    by (simp add: re_search_def first_some_None)
qed

lemma re_search_lsa_first:
  assumes "first_occurrence url pre v i n rst"
  shows "\<exists>m. re_search lsa_pattern url = Some (vol_issue_enum v i n, m)"
proof -
  let ?f = "\<lambda>k. case bt lsa_pattern (drop k url) k Map.empty of
               None \<Rightarrow> None
             | Some (e, m) \<Rightarrow> Some (take (e - k) (drop k url), m)"
  from assms have url: "url = pre @ vol_issue_enum v i n @ rst"
    and d: "digits v" "digits i" "digits n" and stop: "rst = [] \<or> \<not> is_digit (hd rst)"
    by (simp_all add: first_occurrence_def)
  have first: "\<forall>k<length pre. \<not> occurs_at k url"
    using assms unfolding first_occurrence_def by (elim conjE)
  have before: "\<forall>k\<in>set [0 ..< length pre]. ?f k = None"
  proof
    fix k assume "k \<in> set [0 ..< length pre]"
    then have "\<not> occurs_at k url" using first by simp
    then have "bt lsa_pattern (drop k url) k Map.empty = None"
      using bt_lsa_occurs [of k url k Map.empty]
      by (cases "bt lsa_pattern (drop k url) k Map.empty") auto
    then show "?f k = None" by simp
  qed
  have here: "?f (length pre) = Some (vol_issue_enum v i n, Map.empty)"
    by (simp add: url bt_lsa_greedy [OF d stop])
  obtain j where j: "Suc (length url) = length pre + Suc j"
    by (simp add: url)
  have "[0 ..< length pre + Suc j] = [0 ..< length pre] @ [length pre ..< length pre + Suc j]"
    by (rule upt_add_eq_append) simp
  also have "[length pre ..< length pre + Suc j] = length pre # [Suc (length pre) ..< length pre + Suc j]"
    by (rule upt_conv_Cons) simp
  finally have "[0 ..< Suc (length url)] =
      [0 ..< length pre] @ length pre # [Suc (length pre) ..< Suc (length url)]"
    by (simp only: j)
  then have "re_search lsa_pattern url = first_some ?f (length pre # [Suc (length pre) ..< Suc (length url)])"
    using first_some_skip [OF before] by (simp add: re_search_def)
  then show ?thesis
    using here by simp
qed

lemma first_occurrence_exists:
  assumes "contains_vie url"
  shows "\<exists>pre v i n rst. first_occurrence url pre v i n rst"
proof -
  from assms obtain k0 where "occurs_at k0 url"
    by (auto simp: contains_vie_occurs)
  define k where "k = (LEAST k. occurs_at k url)"
  have occ: "occurs_at k url"
    unfolding k_def using \<open>occurs_at k0 url\<close> by (rule LeastI)
  have least: "\<forall>j<k. \<not> occurs_at j url"
    unfolding k_def using not_less_Least by blast
  from occ obtain v i n' rst' where dr: "drop k url = vol_issue_enum v i n' @ rst'"
      and d: "digits v" "digits i" "digits n'"
    by (auto simp: occurs_at_def)
  let ?n = "n' @ takeWhile is_digit rst'" and ?rst = "dropWhile is_digit rst'"
  have dn: "digits ?n"
    using d(3) by (auto simp: digits_def list_all_iff dest: set_takeWhileD)
  have stop: "?rst = [] \<or> \<not> is_digit (hd ?rst)"
    using hd_dropWhile [of is_digit rst'] by blast
  have "drop k url = vol_issue_enum v i ?n @ ?rst"
    using dr by (simp add: vol_issue_enum_def)
  moreover have lk: "length (take k url) = k"
    using occurs_at_bound [OF occ] by simp
  ultimately have "url = take k url @ vol_issue_enum v i ?n @ ?rst"
    by (metis append_take_drop_id)
  with d(1,2) dn stop least lk have "first_occurrence url (take k url) v i ?n ?rst"
    unfolding first_occurrence_def by simp
  then show ?thesis by blast
qed

lemma no_digit_no_occurrence:
  assumes "list_all (\<lambda>c. \<not> is_digit c) pre"
  shows "\<forall>k<length pre. \<not> occurs_at k (pre @ x)"
proof (intro allI impI notI)
  fix k assume k: "k < length pre" and "occurs_at k (pre @ x)"
  then obtain v i n rst where dr: "drop k (pre @ x) = vol_issue_enum v i n @ rst" and "digits v"
    by (auto simp: occurs_at_def)
  then obtain c v' where v: "v = c # v'" and "is_digit c"
    by (cases v) (auto simp: digits_def)
  have "drop k (pre @ x) = pre ! k # drop (Suc k) pre @ x"
    using k by (simp add: Cons_nth_drop_Suc)
  with dr v have "pre ! k = c"
    by (simp add: vol_issue_enum_def)
  with \<open>is_digit c\<close> assms k show False
    by (auto simp: list_all_iff)
qed

lemma contains_vie_search: "contains_vie url = (re_search lsa_pattern url \<noteq> None)"
proof
  assume "contains_vie url"
  then obtain pre v i n rst where "first_occurrence url pre v i n rst"
    using first_occurrence_exists by blast
  then show "re_search lsa_pattern url \<noteq> None"
    using re_search_lsa_first by fastforce
next
  assume "re_search lsa_pattern url \<noteq> None"
  then show "contains_vie url"
    by (rule contrapos_np) (rule re_search_lsa_None)
qed

lemma first_occurrence_contains:
  "first_occurrence url pre v i n rst \<Longrightarrow> contains_vie url"
  unfolding first_occurrence_def contains_vie_def by blast

lemma search_doi_org: "re_search lsa_pattern doi_org_landing = None"
  unfolding doi_org_landing_def by code_simp

lemma first_occurrence_lsa_landing:
  "first_occurrence lsa_landing ''https://www.life-science-alliance.org/content/''
     ''2'' ''4'' ''201900445'' []"
proof -
  have "\<forall>k<length ''https://www.life-science-alliance.org/content/''.
      \<not> occurs_at k (''https://www.life-science-alliance.org/content/'' @ ''2/4/e201900445'')"
    by (rule no_digit_no_occurrence) (simp add: is_digit_def in_range_def)
  then show ?thesis
    by (simp add: first_occurrence_def lsa_landing_def vol_issue_enum_def digits_def
          is_digit_def in_range_def)
qed

lemma not_two_segment_wildcard: "\<not> two_segment_doi ''10X1234/a.b''"
  by (simp add: two_segment_doi_def)

lemma sub_from_no_match:
  assumes "\<forall>k\<ge>pos. bt p (drop k s) k Map.empty = None"
  shows "sub_from p t s pos = drop pos s"
  using assms
proof (induction "Suc (length s) - pos" arbitrary: pos)
  case 0
  then have "length s < pos" by simp
  then show ?case by (subst sub_from.simps) simp
next
  case (Suc n)
  then have le: "pos \<le> length s" by simp
  have none: "bt p (drop pos s) pos Map.empty = None"
    using Suc.prems by simp
  show ?case
  proof (cases "pos < length s")
    case True
    have "sub_from p t s (Suc pos) = drop (Suc pos) s"
      using Suc.hyps(2) Suc.prems by (intro Suc.hyps(1)) auto
    then show ?thesis
      using True none by (subst sub_from.simps) (simp add: Cons_nth_drop_Suc)
  next
    case False
    then show ?thesis
      using le none by (subst sub_from.simps) simp
  qed
qed

lemma bt_doi_pattern_later: "0 < k \<Longrightarrow> bt doi_pattern r k m = None"
  by (simp add: doi_pattern_def)

lemma re_sub_doi_no_match:
  assumes "bt doi_pattern doi 0 Map.empty = None"
  shows "re_sub doi_pattern doi_template doi = doi"
proof -
  have "\<forall>k\<ge>0. bt doi_pattern (drop k doi) k Map.empty = None"
    using assms bt_doi_pattern_later by (metis drop0 gr0I)
  then show ?thesis
    unfolding re_sub_def by (simp add: sub_from_no_match)
qed

section \<open>The EjErEmmMsb generator\<close>

text \<open>
  C4. For a DOI \<open>10.<4-9 digits>/<seg1>.<seg2>\<close> whose two segments are non-empty runs of
  characters of \<open>[-_;()/:a-zA-Z0-9]\<close>, the EjErEmmMsb generator returns the embopress
  download URL with the DOI in \<open>doi=\<close> and \<open><seg1><seg2>\<close>, without the dot, in
  \<open>file=\<close>.
\<close>

theorem EjErEmmMsb_two_segment_doi:
  assumes "4 \<le> length ds" and "length ds \<le> 9" and "\<forall>c\<in>set ds. is_digit c"
    and "seg1 \<noteq> []" and "seg2 \<noteq> []"
    and "\<forall>c\<in>set seg1. is_seg_char c" and "\<forall>c\<in>set seg2. is_seg_char c"
  shows "RPFLinkEjErEmmMsb_generate_link (''10.'' @ ds @ ''/'' @ seg1 @ ''.'' @ seg2) =
     ''https://www.embopress.org/action/downloadSupplement?doi=''
       @ (''10.'' @ ds @ ''/'' @ seg1 @ ''.'' @ seg2)
       @ ''&file='' @ seg1 @ seg2 @ ''.reviewer_comments.pdf''"
  unfolding RPFLinkEjErEmmMsb_generate_link_def Let_def
  by (simp only: re_sub_doi_match [OF assms] append_assoc)

text \<open>The DOI \<open>10.15252/embr.201847097\<close> of EMBO reports.\<close>

theorem EjErEmmMsb_two_segment_doi_witness:
  "length ''15252'' \<in> {4..9} \<and> list_all is_digit ''15252''
   \<and> list_all is_seg_char ''embr'' \<and> list_all is_seg_char ''201847097''
   \<and> RPFLinkEjErEmmMsb_generate_link ''10.15252/embr.201847097'' =
     ''https://www.embopress.org/action/downloadSupplement?doi=10.15252/embr.201847097&file=embr201847097.reviewer_comments.pdf''"
  using EjErEmmMsb_two_segment_doi [of "''15252''" "''embr''" "''201847097''"]
  by (simp add: is_digit_def is_seg_char_def in_range_def)

text \<open>
  Where the pattern, as the module writes it, does not match, \<open>re.sub\<close> returns its
  argument and the DOI stands in \<open>file=\<close> unchanged. The pattern matches more than the DOIs
  of the two-segment form: its \<open>$\<close> also holds before a trailing newline, and its first dot
  is a wildcard.
\<close>

lemma EjErEmmMsb_unmatched_passthrough:
  assumes "bt doi_pattern doi 0 Map.empty = None"
  shows "RPFLinkEjErEmmMsb_generate_link doi =
     ''https://www.embopress.org/action/downloadSupplement?doi='' @ doi @ ''&file='' @ doi
       @ ''.reviewer_comments.pdf''"
  by (simp add: RPFLinkEjErEmmMsb_generate_link_def re_sub_doi_no_match [OF assms])

lemma EjErEmmMsb_trailing_newline:
  "RPFLinkEjErEmmMsb_generate_link (''10.1234/a.b'' @ [CHR 0x0A]) =
     ''https://www.embopress.org/action/downloadSupplement?doi=10.1234/a.b'' @ [CHR 0x0A]
       @ ''&file=ab'' @ [CHR 0x0A] @ ''.reviewer_comments.pdf''"
proof -
  have "re_sub doi_pattern doi_template (''10.1234/a.b'' @ [CHR 0x0A]) = ''ab'' @ [CHR 0x0A]"
    by code_simp
  then show ?thesis
    by (simp add: RPFLinkEjErEmmMsb_generate_link_def)
qed

text \<open>
  C5. The pattern's first dot is the unescaped wildcard (the dot between the segments is
  escaped), so a string that is no DOI of the two-segment form is rewritten all the same
  when any other character stands after \<open>10\<close>: here \<open>10X1234/a.b\<close> ends up as
  \<open>file=ab\<close>, not as \<open>file=10X1234/a.b\<close>.
\<close>

theorem EjErEmmMsb_wildcard_dot:
  "\<not> two_segment_doi ''10X1234/a.b''
   \<and> RPFLinkEjErEmmMsb_generate_link ''10X1234/a.b'' =
       ''https://www.embopress.org/action/downloadSupplement?doi=10X1234/a.b&file=ab.reviewer_comments.pdf''"
proof -
  have "re_sub doi_pattern doi_template ''10X1234/a.b'' = ''ab''"
    by code_simp
  then show ?thesis
    using not_two_segment_wildcard by (simp add: RPFLinkEjErEmmMsb_generate_link_def)
qed

section \<open>The LSA generator\<close>

text \<open>
  C8. When the resolved landing-page URL contains a substring \<open><digits>/<digits>/e<digits>\<close>,
  it has a first occurrence, and the LSA generator returns the life-science-alliance URL
  built from the volume, issue and article number of that first occurrence.
\<close>

theorem LSA_first_occurrence:
  assumes "resolve w doi = Inr url" and "contains_vie url"
  shows "(\<exists>pre v i n rst. first_occurrence url pre v i n rst)
     \<and> (\<forall>pre v i n rst. first_occurrence url pre v i n rst \<longrightarrow>
          RPFLinkLSA_generate_link w doi =
            (Inr (''https://www.life-science-alliance.org/content/lsa/'' @ v @ ''/'' @ i
                    @ ''/e'' @ n @ ''.reviewer-comments.pdf''),
             [Resolve doi]))"
proof (intro conjI allI impI)
  show "\<exists>pre v i n rst. first_occurrence url pre v i n rst"
    using assms(2) by (rule first_occurrence_exists)
next
  fix pre v i n rst
  assume "first_occurrence url pre v i n rst"
  then obtain m where "re_search lsa_pattern url = Some (vol_issue_enum v i n, m)"
    using re_search_lsa_first by blast
  then show "RPFLinkLSA_generate_link w doi =
      (Inr (''https://www.life-science-alliance.org/content/lsa/'' @ v @ ''/'' @ i
              @ ''/e'' @ n @ ''.reviewer-comments.pdf''),
       [Resolve doi])"
    using assms(1) by (simp add: RPFLinkLSA_generate_link_def vol_issue_enum_def)
qed

text \<open>
  The landing page \<open>.../content/2/4/e201900445\<close>.
\<close>

theorem LSA_first_occurrence_witness:
  "contains_vie lsa_landing
   \<and> RPFLinkLSA_generate_link (proxy_world lsa_landing pdf_reply) ''10.26508/lsa.201900445'' =
       (Inr ''https://www.life-science-alliance.org/content/lsa/2/4/e201900445.reviewer-comments.pdf'',
        [Resolve ''10.26508/lsa.201900445''])"
proof -
  have c: "contains_vie lsa_landing"
    using first_occurrence_lsa_landing by (rule first_occurrence_contains)
  have r: "resolve (proxy_world lsa_landing pdf_reply) ''10.26508/lsa.201900445'' = Inr lsa_landing"
    by (simp add: proxy_world_def)
  from LSA_first_occurrence [OF r c] first_occurrence_lsa_landing
  have "RPFLinkLSA_generate_link (proxy_world lsa_landing pdf_reply) ''10.26508/lsa.201900445'' =
       (Inr (''https://www.life-science-alliance.org/content/lsa/'' @ ''2'' @ ''/'' @ ''4''
               @ ''/e'' @ ''201900445'' @ ''.reviewer-comments.pdf''),
        [Resolve ''10.26508/lsa.201900445''])"
    by blast
  with c show ?thesis by simp
qed

text \<open>
  C7, as amended. When the resolved landing-page URL contains no substring
  \<open><digits>/<digits>/e<digits>\<close>, LSA generation raises (\<open>AttributeError\<close>, from \<open>.group\<close>
  on \<open>None\<close>): no URL and no empty string is returned, by \<open>_generate_link\<close> and by the
  call of the instance alike, and nothing is sent to the proxy.
\<close>

theorem LSA_no_match_raises:
  assumes "resolve w doi = Inr url" and "\<not> contains_vie url"
  shows "RPFLinkLSA_generate_link w doi = (Inl AttributeError, [Resolve doi])
     \<and> RPFLinkAbstract_call \<lparr>cls = RPFLinkLSA, delay_requests = d\<rparr> w doi =
         (Inl AttributeError, [Resolve doi])"
  using assms
  by (simp add: RPFLinkLSA_generate_link_def RPFLinkAbstract_call_def generate_link_def
        re_search_lsa_None)

text \<open>
  A landing page that is still the DOI link.
\<close>

theorem LSA_no_match_raises_witness:
  "\<not> contains_vie doi_org_landing
   \<and> RPFLinkLSA_generate_link (proxy_world doi_org_landing pdf_reply) ''10.26508/lsa.201900445'' =
       (Inl AttributeError, [Resolve ''10.26508/lsa.201900445''])
   \<and> RPFLinkAbstract_call \<lparr>cls = RPFLinkLSA, delay_requests = True\<rparr>
        (proxy_world doi_org_landing pdf_reply) ''10.26508/lsa.201900445'' =
       (Inl AttributeError, [Resolve ''10.26508/lsa.201900445''])"
proof -
  have n: "\<not> contains_vie doi_org_landing"
    by (simp add: contains_vie_search search_doi_org)
  have r: "resolve (proxy_world doi_org_landing pdf_reply) ''10.26508/lsa.201900445'' = Inr doi_org_landing"
    by (simp add: proxy_world_def)
  from LSA_no_match_raises [OF r n, of True] n show ?thesis by simp
qed

text \<open>
  C7 as stated fails: the pattern-match failure is not the only failure that surfaces.
  Here generation succeeds, the proxy answers 200 with a body whose \<open>solution\<close> has no
  \<open>status\<close>, and the call of the instance raises \<open>KeyError\<close>.
\<close>

theorem other_failure_surfaces_counterexample:
  "contains_vie lsa_landing
   \<and> RPFLinkAbstract_call \<lparr>cls = RPFLinkLSA, delay_requests = True\<rparr>
        (proxy_world lsa_landing (json_reply (JObj [(''solution'', JObj [])])))
        ''10.26508/lsa.201900445'' =
       (Inl (KeyError ''status''),
        [Resolve ''10.26508/lsa.201900445'', LogDebug, Sleep 5,
         Post proxy_url (proxy_request_data
           ''https://www.life-science-alliance.org/content/lsa/2/4/e201900445.reviewer-comments.pdf'')])"
proof -
  have c: "contains_vie lsa_landing"
    using first_occurrence_lsa_landing by (rule first_occurrence_contains)
  obtain m where "re_search lsa_pattern lsa_landing = Some (vol_issue_enum ''2'' ''4'' ''201900445'', m)"
    using re_search_lsa_first [OF first_occurrence_lsa_landing] by blast
  then have "RPFLinkAbstract_call \<lparr>cls = RPFLinkLSA, delay_requests = True\<rparr>
        (proxy_world lsa_landing (json_reply (JObj [(''solution'', JObj [])])))
        ''10.26508/lsa.201900445'' =
       (Inl (KeyError ''status''),
        [Resolve ''10.26508/lsa.201900445'', LogDebug, Sleep 5,
         Post proxy_url (proxy_request_data
           ''https://www.life-science-alliance.org/content/lsa/2/4/e201900445.reviewer-comments.pdf'')])"
    by (simp add: RPFLinkAbstract_call_def generate_link_def RPFLinkLSA_generate_link_def
          proxy_world_def json_reply_def RPFLinkAbstract_test_def inspect_solution_def Let_def
          vol_issue_enum_def)
  with c show ?thesis by simp
qed

section \<open>The verifier\<close>

lemma py_in_str_sublist: "py_in_str needle hay = sublist needle hay"
  by (induction hay) (auto simp: sublist_Cons_right)

lemma py_ne_200_equals: "py_ne_200 v = (\<not> equals_200 v)"
  by (cases v) (auto simp: equals_200_def)

lemma inspect_solution_conforms:
  assumes "json_result r = Inr data" and "solution_status r \<noteq> None" and "content_type r \<noteq> None"
  shows "fst (inspect_solution data link []) =
     Inr (if target_ok r \<and> pdf_type r then link else [])"
proof -
  have dec: "decoded_body r = Some data"
    using assms(1) by (simp add: decoded_body_def)
  from dec assms(2) obtain kvs sol where data: "data = JObj kvs" and sol: "map_of kvs ''solution'' = Some sol"
    by (cases data) (auto simp: solution_status_def field_def split: Option.bind_splits)
  from dec assms(2) data sol obtain skvs st where s: "sol = JObj skvs"
      and st: "map_of skvs ''status'' = Some st"
    by (cases sol) (auto simp: solution_status_def field_def split: Option.bind_splits)
  from dec assms(3) data sol s obtain hs where h: "map_of skvs ''headers'' = Some (JObj hs)"
    by (auto simp: content_type_def solution_headers_def field_def
          split: Option.bind_splits option.splits json.splits)
  have ss: "solution_status r = Some st"
    using dec data sol s st by (simp add: solution_status_def field_def)
  have sh: "solution_headers r = Some (JObj hs)"
    using dec data sol s h by (simp add: solution_headers_def field_def)
  show ?thesis
  proof (cases "map_of hs ''content-type''")
    case None
    then show ?thesis
      using data sol s st h ss sh
      by (simp add: inspect_solution_def target_ok_def pdf_type_def content_type_def
            py_ne_200_equals py_in_str_sublist)
  next
    case (Some ctv)
    with assms(3) sh obtain ct where "ctv = JStr ct"
      by (cases ctv) (auto simp: content_type_def)
    with Some show ?thesis
      using data sol s st h ss sh
      by (simp add: inspect_solution_def target_ok_def pdf_type_def content_type_def
            py_ne_200_equals py_in_str_sublist)
  qed
qed

text \<open>
  An exception of \<open>.json()\<close> that is no \<open>json.JSONDecodeError\<close> is not caught: it leaves
  \<open>_test\<close> after the request has been sent. So does the decoding error of a \<open>requests\<close>
  that decodes with \<open>simplejson\<close>.
\<close>

lemma test_other_json_error_raised:
  assumes "link \<noteq> []" and "post w proxy_url (proxy_request_data link) = Inr r"
    and "status_code r = 200" and "json_result r = Inl e" and "e \<noteq> JSONDecodeError"
  shows "RPFLinkAbstract_test self w (Some link) invalid =
     (Inl e,
      (if delay_requests self then [LogDebug, Sleep (randint_5_20 w)] else [])
      @ [Post proxy_url (proxy_request_data link)])"
  using assms by (simp add: RPFLinkAbstract_test_def Let_def)

lemma test_simplejson_error_raised:
  "RPFLinkAbstract_test \<lparr>cls = RPFLinkEjErEmmMsb, delay_requests = True\<rparr>
      (proxy_world []
         \<lparr>status_code = 200,
          json_result = Inl (OtherError ''requests.exceptions.JSONDecodeError'')\<rparr>)
      (Some link0) []
     = (Inl (OtherError ''requests.exceptions.JSONDecodeError''),
        [LogDebug, Sleep 5, Post proxy_url (proxy_request_data link0)])"
  by (simp add: RPFLinkAbstract_test_def Let_def proxy_world_def link0_def)

text \<open>
  C2, as amended. For a non-empty candidate URL and a proxy reply that follows the wire
  contract, \<open>_test\<close> returns the URL unchanged when the proxy status is 200, \<open>solution.status\<close>
  equals 200 and the \<open>content-type\<close> header contains \<open>application/pdf\<close>, and the empty
  string when one of the three fails. A reply on which \<open>.json()\<close> raises anything but
  \<open>json.JSONDecodeError\<close> does not follow the contract.
\<close>

theorem test_on_conforming_reply:
  assumes "link \<noteq> []" and "post w proxy_url (proxy_request_data link) = Inr r"
    and "conforms r"
  shows "fst (RPFLinkAbstract_test self w (Some link) []) =
     Inr (if proxy_ok r \<and> target_ok r \<and> pdf_type r then link else [])"
proof (cases "status_code r = 200")
  case False
  then show ?thesis
    using assms(1,2) by (simp add: RPFLinkAbstract_test_def Let_def proxy_ok_def)
next
  case ok: True
  show ?thesis
  proof (cases "json_result r")
    case (Inl e)
    then have none: "solution_status r = None"
      by (simp add: solution_status_def decoded_body_def)
    with assms(3) ok Inl have "e = JSONDecodeError"
      by (simp add: conforms_def)
    moreover from none have "\<not> target_ok r"
      by (simp add: target_ok_def)
    ultimately show ?thesis
      using assms(1,2) ok Inl by (simp add: RPFLinkAbstract_test_def Let_def)
  next
    case (Inr data)
    with assms(3) ok have "solution_status r \<noteq> None" and "content_type r \<noteq> None"
      by (simp_all add: conforms_def)
    from inspect_solution_conforms [OF Inr this, of link] show ?thesis
      using assms(1,2) ok Inr
      by (cases "inspect_solution data link []")
        (simp add: RPFLinkAbstract_test_def Let_def proxy_ok_def)
  qed
qed

text \<open>
  A reply that serves a PDF.
\<close>

theorem test_on_conforming_reply_witness:
  "link0 \<noteq> [] \<and> conforms pdf_reply \<and> proxy_ok pdf_reply \<and> target_ok pdf_reply \<and> pdf_type pdf_reply
   \<and> fst (RPFLinkAbstract_test \<lparr>cls = RPFLinkEjErEmmMsb, delay_requests = True\<rparr>
        (proxy_world [] pdf_reply) (Some link0) []) = Inr link0"
  using test_on_conforming_reply [of link0 "proxy_world [] pdf_reply" pdf_reply
      "\<lparr>cls = RPFLinkEjErEmmMsb, delay_requests = True\<rparr>"]
  by (simp add: link0_def pdf_reply_def json_reply_def proxy_world_def conforms_def proxy_ok_def
        target_ok_def pdf_type_def solution_status_def solution_headers_def content_type_def
        decoded_body_def field_def equals_200_def py_in_str_sublist [symmetric])

text \<open>
  C2 as stated fails: the target status is 404, so the second condition fails, but the
  body has no \<open>headers\<close> and line 74 raises \<open>KeyError\<close> before the status is looked at.
\<close>

theorem test_missing_headers_counterexample:
  "\<not> target_ok (json_reply (JObj [(''solution'', JObj [(''status'', JInt 404)])]))
   \<and> RPFLinkAbstract_test \<lparr>cls = RPFLinkEjErEmmMsb, delay_requests = True\<rparr>
        (proxy_world [] (json_reply (JObj [(''solution'', JObj [(''status'', JInt 404)])])))
        (Some link0) []
      = (Inl (KeyError ''headers''),
         [LogDebug, Sleep 5, Post proxy_url (proxy_request_data link0)])"
  by (simp add: link0_def json_reply_def proxy_world_def target_ok_def solution_status_def
        decoded_body_def field_def equals_200_def RPFLinkAbstract_test_def inspect_solution_def
        Let_def)

text \<open>
  C3, as amended. When the proxy's status is not 200, or the status is 200 and \<open>.json()\<close>
  raises \<open>json.JSONDecodeError\<close> (or a subclass of it), \<open>_test\<close> logs a warning and returns
  the empty string; nothing is raised.
\<close>

theorem test_bad_transport:
  assumes "post w proxy_url (proxy_request_data link) = Inr r"
    and "status_code r \<noteq> 200 \<or> json_result r = Inl JSONDecodeError"
  shows "RPFLinkAbstract_test self w (Some link) [] =
     (Inr [],
      if link = [] then []
      else (if delay_requests self then [LogDebug, Sleep (randint_5_20 w)] else [])
           @ [Post proxy_url (proxy_request_data link), LogWarning])"
  using assms by (auto simp: RPFLinkAbstract_test_def Let_def)

text \<open>
  A proxy answering 503, and a proxy answering 200 with a body on which \<open>.json()\<close> raises
  \<open>json.JSONDecodeError\<close>.
\<close>

theorem test_bad_transport_witness:
  "RPFLinkAbstract_test \<lparr>cls = RPFLinkEjErEmmMsb, delay_requests = True\<rparr>
      (proxy_world [] \<lparr>status_code = 503, json_result = Inr (JObj [])\<rparr>) (Some link0) []
     = (Inr [], [LogDebug, Sleep 5, Post proxy_url (proxy_request_data link0), LogWarning])
   \<and> RPFLinkAbstract_test \<lparr>cls = RPFLinkEjErEmmMsb, delay_requests = True\<rparr>
      (proxy_world [] \<lparr>status_code = 200, json_result = Inl JSONDecodeError\<rparr>) (Some link0) []
     = (Inr [], [LogDebug, Sleep 5, Post proxy_url (proxy_request_data link0), LogWarning])"
  using test_bad_transport [of "proxy_world [] \<lparr>status_code = 503, json_result = Inr (JObj [])\<rparr>"
      link0 "\<lparr>status_code = 503, json_result = Inr (JObj [])\<rparr>"
      "\<lparr>cls = RPFLinkEjErEmmMsb, delay_requests = True\<rparr>"]
    test_bad_transport [of "proxy_world [] \<lparr>status_code = 200, json_result = Inl JSONDecodeError\<rparr>"
      link0 "\<lparr>status_code = 200, json_result = Inl JSONDecodeError\<rparr>"
      "\<lparr>cls = RPFLinkEjErEmmMsb, delay_requests = True\<rparr>"]
  by (simp add: proxy_world_def link0_def)

text \<open>
  C3 as stated fails: a body that decodes to an object without \<open>solution\<close> is not
  recovered; the \<open>KeyError\<close> of line 73 reaches the caller.
\<close>

theorem test_missing_solution_counterexample:
  "RPFLinkAbstract_test \<lparr>cls = RPFLinkEjErEmmMsb, delay_requests = True\<rparr>
      (proxy_world [] (json_reply (JObj []))) (Some link0) []
     = (Inl (KeyError ''solution''),
        [LogDebug, Sleep 5, Post proxy_url (proxy_request_data link0)])"
  by (simp add: link0_def json_reply_def proxy_world_def RPFLinkAbstract_test_def
        inspect_solution_def Let_def)

text \<open>
  C10. For an absent (\<open>None\<close>) or empty candidate URL, \<open>_test\<close> returns the empty string
  at once: no delay, no request to the proxy, no log.
\<close>

theorem test_empty_link:
  "RPFLinkAbstract_test self w None [] = (Inr [], [])
   \<and> RPFLinkAbstract_test self w (Some []) [] = (Inr [], [])"
  by (simp add: RPFLinkAbstract_test_def)

text \<open>
  An LSA instance in a world whose proxy would serve a PDF.
\<close>

theorem test_empty_link_witness:
  "RPFLinkAbstract_test \<lparr>cls = RPFLinkLSA, delay_requests = True\<rparr>
      (proxy_world lsa_landing pdf_reply) None [] = (Inr [], [])
   \<and> RPFLinkAbstract_test \<lparr>cls = RPFLinkLSA, delay_requests = True\<rparr>
      (proxy_world lsa_landing pdf_reply) (Some []) [] = (Inr [], [])"
  using test_empty_link [of "\<lparr>cls = RPFLinkLSA, delay_requests = True\<rparr>"
      "proxy_world lsa_landing pdf_reply"]
  by simp

section \<open>The entry point on journal names\<close>

lemma norm_msb_capitals:
  "py_lower (py_strip ''Molecular Systems Biology'') = ''molecular systems biology''"
  by code_simp

lemma norm_lsa: "py_lower (py_strip ''Life Science Alliance'') = ''life science alliance''"
  by code_simp

lemma norm_random: "py_lower (py_strip ''Some Random Journal'') = ''some random journal''"
  by code_simp

lemma norm_msb_padded:
  "py_lower (py_strip ''  Molecular Systems Biology '') = ''molecular systems biology''"
  by code_simp

lemma norm_msb: "py_lower (py_strip ''molecular systems biology'') = ''molecular systems biology''"
  by code_simp

lemma init_raises: "RPFLinkAbstract_init c d = Inl TypeError"
  by (simp add: RPFLinkAbstract_init_def super_init_unbound_def)

lemma instantiate_raises: "instantiate_and_call c w doi = (Inl TypeError, [Instantiate c])"
  by (simp add: instantiate_and_call_def init_raises)

text \<open>
  C1. For a journal name whose normal form is one of the five recognised names, and any
  DOI, \<open>generate_rpf_link\<close> raises \<open>TypeError\<close> while it instantiates the class: nothing is
  generated, no delay is taken and nothing is sent. Neither class can be instantiated.
\<close>

theorem recognized_journal_raises_TypeError:
  assumes "py_lower (py_strip journal) \<in> set recognized_journals"
  shows "generate_rpf_link w journal doi =
       (Inl TypeError,
        [Instantiate (if py_lower (py_strip journal) = ''life science alliance''
                      then RPFLinkLSA else RPFLinkEjErEmmMsb)])
     \<and> RPFLinkAbstract_init c d = Inl TypeError"
  using assms
  by (auto simp: generate_rpf_link_def Let_def recognized_journals_def instantiate_raises
        init_raises)

text \<open>
  The call of the module's usage example, and a call for Life Science Alliance.
\<close>

theorem recognized_journal_raises_TypeError_witness:
  "\<forall>w. generate_rpf_link w ''Molecular Systems Biology'' ''10.15252/msb.20198849'' =
         (Inl TypeError, [Instantiate RPFLinkEjErEmmMsb])
       \<and> generate_rpf_link w ''Life Science Alliance'' ''10.26508/lsa.201900445'' =
         (Inl TypeError, [Instantiate RPFLinkLSA])"
  using recognized_journal_raises_TypeError [of "''Molecular Systems Biology''"]
    recognized_journal_raises_TypeError [of "''Life Science Alliance''"]
  by (simp add: norm_msb_capitals norm_lsa recognized_journals_def)

text \<open>
  C6. For a journal name whose normal form (trimmed, lowercased) is none of the five
  recognised names, and any DOI, \<open>generate_rpf_link\<close> returns the empty string with no
  event at all: no class is instantiated, no delay is taken, nothing is sent.
\<close>

theorem unrecognized_journal_empty:
  assumes "py_lower (py_strip journal) \<notin> set recognized_journals"
  shows "generate_rpf_link w journal doi = (Inr [], [])"
  using assms by (simp add: generate_rpf_link_def Let_def recognized_journals_def)

text \<open>
  \<open>generate_rpf_link('Some Random Journal', 'anything')\<close>.
\<close>

theorem unrecognized_journal_empty_witness:
  "\<forall>w. generate_rpf_link w ''Some Random Journal'' ''anything'' = (Inr [], [])"
  using unrecognized_journal_empty [of "''Some Random Journal''"]
  by (simp add: norm_random recognized_journals_def)

text \<open>
  C9. Two journal names with the same normal form select the same class, and the entry
  point behaves the same on them: same result, same events.
\<close>

theorem dispatch_on_normalised_name:
  assumes "py_lower (py_strip journal1) = py_lower (py_strip journal2)"
  shows "generate_rpf_link w journal1 doi = generate_rpf_link w journal2 doi
     \<and> selected_class w journal1 doi = selected_class w journal2 doi"
  using assms by (simp add: generate_rpf_link_def selected_class_def Let_def)

text \<open>
  \<open>'  Molecular Systems Biology '\<close> and \<open>'molecular systems biology'\<close>.
\<close>

theorem dispatch_on_normalised_name_witness:
  "\<forall>w doi. generate_rpf_link w ''  Molecular Systems Biology '' doi =
       generate_rpf_link w ''molecular systems biology'' doi
     \<and> selected_class w ''  Molecular Systems Biology '' doi = Some RPFLinkEjErEmmMsb
     \<and> selected_class w ''molecular systems biology'' doi = Some RPFLinkEjErEmmMsb"
proof (intro allI)
  fix w doi
  have sel: "selected_class w ''molecular systems biology'' doi = Some RPFLinkEjErEmmMsb"
    by (simp add: selected_class_def generate_rpf_link_def Let_def norm_msb instantiate_raises)
  from dispatch_on_normalised_name
    [of "''  Molecular Systems Biology ''" "''molecular systems biology''" w doi]
  show "generate_rpf_link w ''  Molecular Systems Biology '' doi =
       generate_rpf_link w ''molecular systems biology'' doi
     \<and> selected_class w ''  Molecular Systems Biology '' doi = Some RPFLinkEjErEmmMsb
     \<and> selected_class w ''molecular systems biology'' doi = Some RPFLinkEjErEmmMsb"
    using sel by (simp add: norm_msb_padded norm_msb)
qed

end
